theory Spec2Isabelle
  imports Main
begin

section \<open>Trigger subscription and filtering (js/src/sdk/models/triggers.ts)\<close>

subsection \<open>Errors and the JavaScript operations the code relies on\<close>

text \<open>
  An exception is a value: \<open>TypeError\<close> is what the runtime raises when a property is read
  or a method is called on \<open>undefined\<close>; \<open>Error msg\<close> is \<open>new Error(msg)\<close> and also
  stands for any error raised by a collaborator or by a subscriber's callback.
  A computation that may raise returns \<open>error + 'a\<close>, with \<open>Inl\<close> the exception.
\<close>

datatype error = TypeError | Error string

definition bindE :: "error + 'a \<Rightarrow> ('a \<Rightarrow> error + 'b) \<Rightarrow> error + 'b" where
  "bindE r k = (case r of Inl e \<Rightarrow> Inl e | Inr x \<Rightarrow> k x)"

text \<open>
  \<open>member obj p\<close> is the property read or method call \<open>obj.p\<close>. TypeScript types are erased
  at run time, so a value the payload lacks reads as \<open>undefined\<close> (\<open>None\<close> here), and
  \<open>undefined.p\<close> raises a TypeError.
\<close>

definition member :: "'a option \<Rightarrow> ('a \<Rightarrow> 'b) \<Rightarrow> error + 'b" where
  "member obj p = (case obj of None \<Rightarrow> Inl TypeError | Some x \<Rightarrow> Inr (p x))"

text \<open>
  \<open>a && b\<close> on booleans: \<open>b\<close> is evaluated only when \<open>a\<close> is true, and an exception
  raised by \<open>a\<close> ends the evaluation. \<open>!c || b\<close> evaluates \<open>b\<close> only when \<open>c\<close> holds.
  \<open>x === y\<close> evaluates \<open>x\<close>, then \<open>y\<close>, then compares the two strings.
\<close>

definition andE :: "error + bool \<Rightarrow> error + bool \<Rightarrow> error + bool" where
  "andE a b = (case a of Inl e \<Rightarrow> Inl e | Inr x \<Rightarrow> (if x then b else Inr False))"

definition orE :: "bool \<Rightarrow> error + bool \<Rightarrow> error + bool" where
  "orE a b = (if a then Inr True else b)"

definition eqE :: "error + string \<Rightarrow> error + string \<Rightarrow> error + bool" where
  "eqE x y = bindE x (\<lambda>l. bindE y (\<lambda>r. Inr (l = r)))"

text \<open>
  \<open>String.prototype.toLowerCase\<close> maps a string by the case table of Unicode, which belongs
  to the runtime and not to the sources. It is therefore a parameter \<open>toLowerCase\<close> of
  the evaluator and of what calls it, and the theorems hold for every such function.

  For concrete inputs, strings are taken in UTF-8, and \<open>lower_case\<close> and \<open>upper_case\<close>
  are \<open>toLowerCase\<close> and \<open>toUpperCase\<close> on strings made of ASCII characters and of the
  dotless i (U+0131, the bytes C4 B1), a lower-case letter whose upper case is \<open>I\<close>. They
  are applied to such strings only; on other characters they are not the functions of
  JavaScript. \<open>ascii\<close> says that a string has ASCII characters only.
\<close>

definition lower_char :: "char \<Rightarrow> char" where
  "lower_char c =
     (let n = (of_char c :: nat) in if 65 \<le> n \<and> n \<le> 90 then char_of (n + 32) else c)"

definition upper_char :: "char \<Rightarrow> char" where
  "upper_char c =
     (let n = (of_char c :: nat) in if 97 \<le> n \<and> n \<le> 122 then char_of (n - 32) else c)"

definition lower_case :: "string \<Rightarrow> string" where
  "lower_case s = map lower_char s"

fun upper_case :: "string \<Rightarrow> string" where
  "upper_case (c # d # s) =
     (if c = CHR 0xC4 \<and> d = CHR 0xB1 then CHR ''I'' # upper_case s
      else upper_char c # upper_case (d # s))"
| "upper_case [c] = [upper_char c]"
| "upper_case [] = []"

definition dotless_i :: string where
  "dotless_i = [CHR 0xC4, CHR 0xB1]"

definition ascii :: "string \<Rightarrow> bool" where
  "ascii s = list_all (\<lambda>c. (of_char c :: nat) < 128) s"

subsection \<open>Data model\<close>

text \<open>
  Modelled from the spec: the declaration of \<open>TTriggerSubscribeParam\<close> (inferred from the
  schema \<open>ZTriggerSubscribeParam\<close> in \<open>../types/trigger\<close>) is not part of the sources.
  The spec lists six optional string fields, and these are the six the code reads. A
  property of a JavaScript object is either not there (\<open>Absent\<close>), there with the value
  \<open>undefined\<close>, or there with a string. \<open>otherKeys\<close> are the names of any further own
  properties of the object: \<open>Object.keys\<close> counts them.
\<close>

datatype optstr = Absent | Undefined | Str string

record TTriggerSubscribeParam =
  appName :: optstr
  triggerId :: optstr
  connectionId :: optstr
  triggerName :: optstr
  entityId :: optstr
  integrationId :: optstr
  otherKeys :: "string list"

text \<open>
  Modelled from the spec: the declaration of \<open>TriggerData\<close> (in \<open>../utils/pusher\<close>) is not
  part of the sources. The spec gives
  \<open>{ appName, metadata: { id, triggerName, connectionId,
       connection: { clientUniqueUserId, integrationId } } }\<close>,
  which are the attributes the code reads. The event is parsed from a payload of the
  transport, so each attribute may be missing at run time (\<open>None\<close>). Field names carry
  the name of the object they belong to.
\<close>

record connection =
  connection_clientUniqueUserId :: "string option"
  connection_integrationId :: "string option"

record metadata =
  metadata_id :: "string option"
  metadata_connectionId :: "string option"
  metadata_triggerName :: "string option"
  metadata_connection :: "connection option"

record TriggerData =
  data_appName :: "string option"
  data_metadata :: "metadata option"

text \<open>The value of a property as read by the code, and JavaScript's truthiness of it.\<close>

fun value_of :: "optstr \<Rightarrow> string option" where
  "value_of (Str s) = Some s"
| "value_of Undefined = None"
| "value_of Absent = None"

fun truthy :: "optstr \<Rightarrow> bool" where
  "truthy (Str s) = (s \<noteq> [])"
| "truthy Undefined = False"
| "truthy Absent = False"

fun key :: "string \<Rightarrow> optstr \<Rightarrow> string list" where
  "key k Absent = []"
| "key k Undefined = [k]"
| "key k (Str s) = [k]"

text \<open>\<open>Object.keys(filters)\<close>: the own properties of the object. Only their number is used.\<close>

definition Object_keys :: "TTriggerSubscribeParam \<Rightarrow> string list" where
  "Object_keys filters =
     key ''appName'' (appName filters) @ key ''triggerId'' (triggerId filters) @
     key ''connectionId'' (connectionId filters) @ key ''triggerName'' (triggerName filters) @
     key ''entityId'' (entityId filters) @ key ''integrationId'' (integrationId filters) @
     otherKeys filters"

subsection \<open>The filter evaluator\<close>

text \<open>The closure \<open>shouldSendTrigger\<close> of \<open>subscribe\<close> (lines 208 to 231), with \<open>filters\<close>
  and the runtime's \<open>toLowerCase\<close> as parameters.\<close>

definition shouldSendTrigger ::
  "(string \<Rightarrow> string) \<Rightarrow> TTriggerSubscribeParam \<Rightarrow> TriggerData \<Rightarrow> error + bool" where
  "shouldSendTrigger toLowerCase filters data =
     (if length (Object_keys filters) = 0 then Inr True
      else
        andE (andE (andE (andE (andE
          (orE (\<not> truthy (appName filters))
             (eqE (member (data_appName data) toLowerCase)
                  (member (value_of (appName filters)) toLowerCase)))
          (orE (\<not> truthy (triggerId filters))
             (eqE (bindE (member (data_metadata data) metadata_id)
                     (\<lambda>v. member v toLowerCase))
                  (member (value_of (triggerId filters)) toLowerCase))))
          (orE (\<not> truthy (connectionId filters))
             (eqE (bindE (member (data_metadata data) metadata_connectionId)
                     (\<lambda>v. member v toLowerCase))
                  (member (value_of (connectionId filters)) toLowerCase))))
          (orE (\<not> truthy (triggerName filters))
             (eqE (bindE (member (data_metadata data) metadata_triggerName)
                     (\<lambda>v. member v toLowerCase))
                  (member (value_of (triggerName filters)) toLowerCase))))
          (orE (\<not> truthy (entityId filters))
             (eqE (bindE (bindE (member (data_metadata data) metadata_connection)
                            (\<lambda>c. member c connection_clientUniqueUserId))
                     (\<lambda>v. member v toLowerCase))
                  (member (value_of (entityId filters)) toLowerCase))))
          (orE (\<not> truthy (integrationId filters))
             (eqE (bindE (bindE (member (data_metadata data) metadata_connection)
                            (\<lambda>c. member c connection_integrationId))
                     (\<lambda>v. member v toLowerCase))
                  (member (value_of (integrationId filters)) toLowerCase))))"

subsection \<open>The six dimensions of a filter\<close>

text \<open>
  The code writes the six comparisons out one by one. To state properties of all of them,
  \<open>field\<close> names a dimension, \<open>constraint\<close> reads the filter's property for it,
  and \<open>attribute\<close> reads the event attribute the code compares it with: \<open>None\<close> when
  the attribute, or an object on the path to it, is missing. \<open>dimensions\<close> lists them in
  the order of the code.
\<close>

datatype field = AppName | TriggerId | ConnectionId | TriggerName | EntityId | IntegrationId

definition dimensions :: "field list" where
  "dimensions = [AppName, TriggerId, ConnectionId, TriggerName, EntityId, IntegrationId]"

fun constraint :: "field \<Rightarrow> TTriggerSubscribeParam \<Rightarrow> optstr" where
  "constraint AppName f = appName f"
| "constraint TriggerId f = triggerId f"
| "constraint ConnectionId f = connectionId f"
| "constraint TriggerName f = triggerName f"
| "constraint EntityId f = entityId f"
| "constraint IntegrationId f = integrationId f"

fun attribute :: "field \<Rightarrow> TriggerData \<Rightarrow> string option" where
  "attribute AppName d = data_appName d"
| "attribute TriggerId d = Option.bind (data_metadata d) metadata_id"
| "attribute ConnectionId d = Option.bind (data_metadata d) metadata_connectionId"
| "attribute TriggerName d = Option.bind (data_metadata d) metadata_triggerName"
| "attribute EntityId d =
     Option.bind (Option.bind (data_metadata d) metadata_connection)
       connection_clientUniqueUserId"
| "attribute IntegrationId d =
     Option.bind (Option.bind (data_metadata d) metadata_connection)
       connection_integrationId"

text \<open>Replacing the value of one filter property, and of one event attribute (where the
  objects on the path to it exist).\<close>

fun set_constraint :: "field \<Rightarrow> optstr \<Rightarrow> TTriggerSubscribeParam \<Rightarrow> TTriggerSubscribeParam" where
  "set_constraint AppName v f = f\<lparr>appName := v\<rparr>"
| "set_constraint TriggerId v f = f\<lparr>triggerId := v\<rparr>"
| "set_constraint ConnectionId v f = f\<lparr>connectionId := v\<rparr>"
| "set_constraint TriggerName v f = f\<lparr>triggerName := v\<rparr>"
| "set_constraint EntityId v f = f\<lparr>entityId := v\<rparr>"
| "set_constraint IntegrationId v f = f\<lparr>integrationId := v\<rparr>"

definition update_metadata :: "(metadata \<Rightarrow> metadata) \<Rightarrow> TriggerData \<Rightarrow> TriggerData" where
  "update_metadata g d = d\<lparr>data_metadata := map_option g (data_metadata d)\<rparr>"

definition update_connection :: "(connection \<Rightarrow> connection) \<Rightarrow> TriggerData \<Rightarrow> TriggerData" where
  "update_connection g d =
     update_metadata (\<lambda>m. m\<lparr>metadata_connection := map_option g (metadata_connection m)\<rparr>) d"

fun set_attribute :: "field \<Rightarrow> string \<Rightarrow> TriggerData \<Rightarrow> TriggerData" where
  "set_attribute AppName a d = d\<lparr>data_appName := Some a\<rparr>"
| "set_attribute TriggerId a d = update_metadata (\<lambda>m. m\<lparr>metadata_id := Some a\<rparr>) d"
| "set_attribute ConnectionId a d =
     update_metadata (\<lambda>m. m\<lparr>metadata_connectionId := Some a\<rparr>) d"
| "set_attribute TriggerName a d =
     update_metadata (\<lambda>m. m\<lparr>metadata_triggerName := Some a\<rparr>) d"
| "set_attribute EntityId a d =
     update_connection (\<lambda>c. c\<lparr>connection_clientUniqueUserId := Some a\<rparr>) d"
| "set_attribute IntegrationId a d =
     update_connection (\<lambda>c. c\<lparr>connection_integrationId := Some a\<rparr>) d"

text \<open>
  One comparison of the chain, as the code evaluates it: no constraint when the filter's
  property is falsy; otherwise the event attribute is read (a TypeError when it is
  missing) and compared in lower case.
\<close>

definition comparison ::
  "(string \<Rightarrow> string) \<Rightarrow> field \<Rightarrow> TTriggerSubscribeParam \<Rightarrow> TriggerData \<Rightarrow> error + bool" where
  "comparison toLowerCase fld f d =
     (if \<not> truthy (constraint fld f) then Inr True
      else case attribute fld d of
             None \<Rightarrow> Inl TypeError
           | Some a \<Rightarrow> Inr (toLowerCase a = toLowerCase (the (value_of (constraint fld f)))))"

text \<open>
  \<open>matches_spec\<close> follows the words of the spec: a comparison holds when the field is
  absent in the filter, or present and case-insensitively equal to the event attribute;
  a missing attribute does not match. \<open>matches\<close> differs in one point: a field counts as
  a constraint only when its value is truthy, so the empty string constrains nothing.
\<close>

definition holds_spec ::
  "(string \<Rightarrow> string) \<Rightarrow> field \<Rightarrow> TTriggerSubscribeParam \<Rightarrow> TriggerData \<Rightarrow> bool" where
  "holds_spec toLowerCase fld f d =
     (case value_of (constraint fld f) of
        None \<Rightarrow> True
      | Some v \<Rightarrow> (case attribute fld d of
                     None \<Rightarrow> False
                   | Some a \<Rightarrow> toLowerCase a = toLowerCase v))"

definition matches_spec ::
  "(string \<Rightarrow> string) \<Rightarrow> TTriggerSubscribeParam \<Rightarrow> TriggerData \<Rightarrow> bool" where
  "matches_spec toLowerCase f d = list_all (\<lambda>fld. holds_spec toLowerCase fld f d) dimensions"

definition holds ::
  "(string \<Rightarrow> string) \<Rightarrow> field \<Rightarrow> TTriggerSubscribeParam \<Rightarrow> TriggerData \<Rightarrow> bool" where
  "holds toLowerCase fld f d =
     (\<not> truthy (constraint fld f) \<or>
      (case attribute fld d of
         None \<Rightarrow> False
       | Some a \<Rightarrow> toLowerCase a = toLowerCase (the (value_of (constraint fld f)))))"

definition matches ::
  "(string \<Rightarrow> string) \<Rightarrow> TTriggerSubscribeParam \<Rightarrow> TriggerData \<Rightarrow> bool" where
  "matches toLowerCase f d = list_all (\<lambda>fld. holds toLowerCase fld f d) dimensions"

text \<open>
  \<open>differs\<close>: the comparison for a field fails on an attribute that is present.
  \<open>before fld\<close>: the fields whose comparisons stand before that of \<open>fld\<close> in the chain.
\<close>

definition differs ::
  "(string \<Rightarrow> string) \<Rightarrow> field \<Rightarrow> TTriggerSubscribeParam \<Rightarrow> TriggerData \<Rightarrow> bool" where
  "differs toLowerCase fld f d =
     (truthy (constraint fld f) \<and>
      (case attribute fld d of
         None \<Rightarrow> False
       | Some a \<Rightarrow> toLowerCase a \<noteq> toLowerCase (the (value_of (constraint fld f)))))"

definition before :: "field \<Rightarrow> field list" where
  "before fld = takeWhile (\<lambda>k. k \<noteq> fld) dimensions"

text \<open>\<open>case_variant s t\<close>: \<open>t\<close> is \<open>s\<close> with the letter case of some of its ASCII letters
  changed.\<close>

definition case_variant :: "string \<Rightarrow> string \<Rightarrow> bool" where
  "case_variant s t = list_all2 (\<lambda>c d. d = c \<or> d = lower_char c \<or> d = upper_char c) s t"

subsection \<open>Subscriptions\<close>

text \<open>
  The calls the code makes to its collaborators, in order, are recorded in \<open>calls\<close>.
  A subscriber's callback returns nothing or raises. A listener is what \<open>subscribe\<close>
  hands to the transport: applied to an event, it yields its outcome (it returns nothing
  or raises) together with the list of events the callback was invoked with.
\<close>

datatype call =
    ManualTelemetry string
  | GetClientId
  | GetPusherClient string string
  | LoggerDebug
  | TriggerSubscribe string
  | TriggerUnsubscribe string
  | SwitchTriggerInstanceStatus string bool

type_synonym callback = "TriggerData \<Rightarrow> error + unit"

type_synonym listener = "TriggerData \<Rightarrow> (error + unit) \<times> TriggerData list"

record world =
  registry :: "string \<Rightarrow> listener option"
  calls :: "call list"

definition called :: "call \<Rightarrow> world \<Rightarrow> world" where
  "called c w = w\<lparr>calls := calls w @ [c]\<rparr>"

text \<open>
  The backend client is a collaborator outside the sources: \<open>getClientId\<close> is the
  outcome of awaiting \<open>backendClient.getClientId()\<close>, an error when it rejects.
\<close>

record BackendClient =
  baseUrl :: string
  apiKey :: string
  getClientId :: "error + string"

text \<open>
  Modelled from the spec: \<open>PusherUtils\<close> (\<open>triggerSubscribe\<close>, \<open>triggerUnsubscribe\<close> and
  the delivery of channel events to the listener) is not part of the sources. The spec's
  Subscription Registry holds at most one subscription per client identity:
  \<open>register\<close> stores or replaces it, \<open>clear\<close> removes it, and \<open>dispatch\<close> looks it up,
  does nothing when there is none, and otherwise hands the event to it. The result of
  \<open>dispatch\<close> is the list of callback invocations the event caused; what the transport
  does with an exception that leaves the listener is not modelled.
\<close>

definition triggerSubscribe :: "string \<Rightarrow> listener \<Rightarrow> world \<Rightarrow> world" where
  "triggerSubscribe clientId l w =
     (called (TriggerSubscribe clientId) w)\<lparr>registry := (registry w)(clientId \<mapsto> l)\<rparr>"

definition triggerUnsubscribe :: "string \<Rightarrow> world \<Rightarrow> world" where
  "triggerUnsubscribe clientId w =
     (called (TriggerUnsubscribe clientId) w)\<lparr>registry := (registry w)(clientId := None)\<rparr>"

definition dispatch :: "string \<Rightarrow> TriggerData \<Rightarrow> world \<Rightarrow> TriggerData list" where
  "dispatch clientId event w =
     (case registry w clientId of None \<Rightarrow> [] | Some l \<Rightarrow> snd (l event))"

text \<open>The arrow function passed to \<open>PusherUtils.triggerSubscribe\<close> (lines 234 to 238).\<close>

definition listener ::
  "(string \<Rightarrow> string) \<Rightarrow> TTriggerSubscribeParam \<Rightarrow> callback \<Rightarrow> listener" where
  "listener toLowerCase filters fn data =
     (case shouldSendTrigger toLowerCase filters data of
        Inl e \<Rightarrow> (Inl e, [])
      | Inr b \<Rightarrow> (if b then (fn data, [data]) else (Inr (), [])))"

text \<open>The default value \<open>{}\<close> of the parameter \<open>filters\<close>.\<close>

definition no_filters :: TTriggerSubscribeParam where
  "no_filters =
     \<lparr>appName = Absent, triggerId = Absent, connectionId = Absent, triggerName = Absent,
      entityId = Absent, integrationId = Absent, otherKeys = []\<rparr>"

text \<open>
  \<open>subscribe\<close> (lines 190 to 239). \<open>fn\<close> is \<open>None\<close> when the callback is null or
  undefined, \<open>filters\<close> is \<open>None\<close> when the argument is left out.
  \<open>getPusherClient\<close> is the outcome of awaiting \<open>PusherUtils.getPusherClient\<close>,
  a collaborator outside the sources; \<open>toLowerCase\<close> is handed on to the listener.
\<close>

definition subscribe ::
  "(string \<Rightarrow> string) \<Rightarrow> BackendClient \<Rightarrow> (string \<Rightarrow> string \<Rightarrow> error + unit) \<Rightarrow>
   callback option \<Rightarrow> TTriggerSubscribeParam option \<Rightarrow> world \<Rightarrow> (error + unit) \<times> world" where
  "subscribe toLowerCase backendClient getPusherClient fn filters_arg w =
     (let filters = (case filters_arg of None \<Rightarrow> no_filters | Some f \<Rightarrow> f);
          w1 = called (ManualTelemetry ''subscribe'') w
      in case fn of
           None \<Rightarrow> (Inl (Error ''Function is required for trigger subscription''), w1)
         | Some f \<Rightarrow>
             (let w2 = called GetClientId w1
              in case getClientId backendClient of
                   Inl e \<Rightarrow> (Inl e, w2)
                 | Inr clientId \<Rightarrow>
                     (let w3 = called (GetPusherClient (baseUrl backendClient)
                                         (apiKey backendClient)) w2
                      in case getPusherClient (baseUrl backendClient) (apiKey backendClient) of
                           Inl e \<Rightarrow> (Inl e, w3)
                         | Inr u \<Rightarrow>
                             (Inr (),
                              triggerSubscribe clientId (listener toLowerCase filters f)
                                (called LoggerDebug w3)))))"

text \<open>\<open>unsubscribe\<close> (lines 241 to 244).\<close>

definition unsubscribe :: "BackendClient \<Rightarrow> world \<Rightarrow> (error + unit) \<times> world" where
  "unsubscribe backendClient w =
     (let w1 = called GetClientId w
      in case getClientId backendClient of
           Inl e \<Rightarrow> (Inl e, w1)
         | Inr clientId \<Rightarrow> (Inr (), triggerUnsubscribe clientId w1))"

subsection \<open>Enabling and disabling a trigger instance\<close>

text \<open>
  \<open>enable\<close> (lines 111 to 131) and \<open>disable\<close> (lines 140 to 160). Three collaborators
  are outside the sources and are parameters: \<open>parse\<close> is \<open>ZTriggerInstanceItems.parse\<close>
  (it raises on invalid input), \<open>switch\<close> is the outcome of awaiting
  \<open>apiClient.triggers.switchTriggerInstanceStatus\<close> for a trigger id and an
  \<open>enabled\<close> flag, and \<open>handleAllError\<close> is \<open>CEG.handleAllError\<close>, whose result is
  thrown.
\<close>

record TTriggerInstanceItems =
  triggerInstanceId :: string

definition enable ::
  "('raw \<Rightarrow> error + TTriggerInstanceItems) \<Rightarrow> (string \<Rightarrow> bool \<Rightarrow> error + unit) \<Rightarrow>
   (error \<Rightarrow> error) \<Rightarrow> 'raw \<Rightarrow> world \<Rightarrow> (error + bool) \<times> world" where
  "enable parse switch handleAllError data w =
     (let w1 = called (ManualTelemetry ''enable'') w
      in case parse data of
           Inl e \<Rightarrow> (Inl (handleAllError e), w1)
         | Inr parsedData \<Rightarrow>
             (let w2 = called (SwitchTriggerInstanceStatus
                                 (triggerInstanceId parsedData) True) w1
              in case switch (triggerInstanceId parsedData) True of
                   Inl e \<Rightarrow> (Inl (handleAllError e), w2)
                 | Inr u \<Rightarrow> (Inr True, w2)))"

definition disable ::
  "('raw \<Rightarrow> error + TTriggerInstanceItems) \<Rightarrow> (string \<Rightarrow> bool \<Rightarrow> error + unit) \<Rightarrow>
   (error \<Rightarrow> error) \<Rightarrow> 'raw \<Rightarrow> world \<Rightarrow> (error + bool) \<times> world" where
  "disable parse switch handleAllError data w =
     (let w1 = called (ManualTelemetry ''disable'') w
      in case parse data of
           Inl e \<Rightarrow> (Inl (handleAllError e), w1)
         | Inr parsedData \<Rightarrow>
             (let w2 = called (SwitchTriggerInstanceStatus
                                 (triggerInstanceId parsedData) False) w1
              in case switch (triggerInstanceId parsedData) False of
                   Inl e \<Rightarrow> (Inl (handleAllError e), w2)
                 | Inr u \<Rightarrow> (Inr True, w2)))"

subsection \<open>Auxiliary definitions for the proofs\<close>

text \<open>A chain \<open>x\<^sub>1 && ... && x\<^sub>n\<close> over a list of operands.\<close>

fun all_of :: "(error + bool) list \<Rightarrow> error + bool" where
  "all_of [] = Inr True"
| "all_of (x # xs) = andE x (all_of xs)"

text \<open>Two events used as concrete inputs: a complete one, and the same event without
  its \<open>connection\<close> object.\<close>

definition github_event :: TriggerData where
  "github_event =
     \<lparr>data_appName = Some ''github'',
      data_metadata = Some
        \<lparr>metadata_id = Some ''xyz'',
         metadata_connectionId = Some ''conn-1'',
         metadata_triggerName = Some ''GITHUB_COMMIT_EVENT'',
         metadata_connection = Some
           \<lparr>connection_clientUniqueUserId = Some ''default'',
            connection_integrationId = Some ''int-1''\<rparr>\<rparr>\<rparr>"

definition github_event_no_connection :: TriggerData where
  "github_event_no_connection =
     \<lparr>data_appName = Some ''github'',
      data_metadata = Some
        \<lparr>metadata_id = Some ''xyz'',
         metadata_connectionId = Some ''conn-1'',
         metadata_triggerName = Some ''GITHUB_COMMIT_EVENT'',
         metadata_connection = None\<rparr>\<rparr>"

text \<open>A backend client whose identity resolves to \<open>client-1\<close>, and the state before any
  subscription.\<close>

definition example_client :: BackendClient where
  "example_client =
     \<lparr>baseUrl = ''https://backend.example'', apiKey = ''key'',
      getClientId = Inr ''client-1''\<rparr>"

definition empty_world :: world where
  "empty_world = \<lparr>registry = (\<lambda>c. None), calls = []\<rparr>"

section \<open>Properties of the filter evaluator\<close>

subsection \<open>The evaluator as a chain of six comparisons\<close>

lemma truthy_Str: "truthy c \<Longrightarrow> \<exists>s. c = Str s \<and> s \<noteq> []"
  by (cases c) auto

lemma andE_assoc: "andE (andE a b) c = andE a (andE b c)"
  by (auto simp: andE_def split: sum.splits)

lemma andE_True_right: "andE a (Inr True) = a"
  by (auto simp: andE_def split: sum.splits)

lemma read_appName:
  "orE (\<not> truthy (appName f))
     (eqE (member (data_appName d) lc) (member (value_of (appName f)) lc))
   = comparison lc AppName f d"
  by (auto simp: orE_def eqE_def member_def bindE_def comparison_def
           dest!: truthy_Str split: option.splits)

lemma read_triggerId:
  "orE (\<not> truthy (triggerId f))
     (eqE (bindE (member (data_metadata d) metadata_id) (\<lambda>v. member v lc))
        (member (value_of (triggerId f)) lc))
   = comparison lc TriggerId f d"
  by (auto simp: orE_def eqE_def member_def bindE_def comparison_def
           dest!: truthy_Str split: option.splits)

lemma read_connectionId:
  "orE (\<not> truthy (connectionId f))
     (eqE (bindE (member (data_metadata d) metadata_connectionId) (\<lambda>v. member v lc))
        (member (value_of (connectionId f)) lc))
   = comparison lc ConnectionId f d"
  by (auto simp: orE_def eqE_def member_def bindE_def comparison_def
           dest!: truthy_Str split: option.splits)

lemma read_triggerName:
  "orE (\<not> truthy (triggerName f))
     (eqE (bindE (member (data_metadata d) metadata_triggerName) (\<lambda>v. member v lc))
        (member (value_of (triggerName f)) lc))
   = comparison lc TriggerName f d"
  by (auto simp: orE_def eqE_def member_def bindE_def comparison_def
           dest!: truthy_Str split: option.splits)

lemma read_entityId:
  "orE (\<not> truthy (entityId f))
     (eqE (bindE (bindE (member (data_metadata d) metadata_connection)
                    (\<lambda>c. member c connection_clientUniqueUserId))
             (\<lambda>v. member v lc))
        (member (value_of (entityId f)) lc))
   = comparison lc EntityId f d"
  by (auto simp: orE_def eqE_def member_def bindE_def comparison_def
           dest!: truthy_Str split: option.splits)

lemma read_integrationId:
  "orE (\<not> truthy (integrationId f))
     (eqE (bindE (bindE (member (data_metadata d) metadata_connection)
                    (\<lambda>c. member c connection_integrationId))
             (\<lambda>v. member v lc))
        (member (value_of (integrationId f)) lc))
   = comparison lc IntegrationId f d"
  by (auto simp: orE_def eqE_def member_def bindE_def comparison_def
           dest!: truthy_Str split: option.splits)

lemma key_empty: "key k c = [] \<longleftrightarrow> c = Absent"
  by (cases c) auto

lemma no_keys_Absent: "Object_keys f = [] \<Longrightarrow> constraint fld f = Absent"
  by (cases fld) (auto simp: Object_keys_def key_empty)

lemma comparison_falsy: "\<not> truthy (constraint fld f) \<Longrightarrow> comparison lc fld f d = Inr True"
  by (simp add: comparison_def)

lemma all_of_True: "(\<forall>x\<in>set xs. x = Inr True) \<Longrightarrow> all_of xs = Inr True"
  by (induction xs) (auto simp: andE_def)

text \<open>The test on \<open>Object.keys\<close> changes nothing: an object without keys has no truthy
  property, and the chain is then true as well.\<close>

lemma shouldSendTrigger_all_of:
  "shouldSendTrigger lc f d = all_of (map (\<lambda>fld. comparison lc fld f d) dimensions)"
proof (cases "Object_keys f = []")
  case True
  then have "comparison lc fld f d = Inr True" for fld
    by (simp add: comparison_falsy no_keys_Absent)
  then have "all_of (map (\<lambda>fld. comparison lc fld f d) dimensions) = Inr True"
    by (intro all_of_True) auto
  with True show ?thesis by (simp add: shouldSendTrigger_def)
next
  case False
  then show ?thesis
    unfolding shouldSendTrigger_def read_appName read_triggerId read_connectionId
      read_triggerName read_entityId read_integrationId
    by (simp add: dimensions_def andE_assoc andE_True_right)
qed

lemma set_dimensions: "set dimensions = UNIV"
proof -
  have "fld \<in> set dimensions" for fld
    by (cases fld) (simp_all add: dimensions_def)
  then show ?thesis by auto
qed

lemma all_fields:
  "(\<forall>fld. P fld) \<longleftrightarrow>
   P AppName \<and> P TriggerId \<and> P ConnectionId \<and> P TriggerName \<and> P EntityId \<and> P IntegrationId"
  by (metis field.exhaust)

lemma all_of_True_iff: "all_of xs = Inr True \<longleftrightarrow> (\<forall>x\<in>set xs. x = Inr True)"
  by (induction xs) (auto simp: andE_def split: sum.splits)

lemma all_of_Inl: "all_of xs = Inl e \<Longrightarrow> Inl e \<in> set xs"
  by (induction xs) (auto simp: andE_def split: sum.splits if_splits)

lemma all_of_total:
  "(\<forall>x\<in>set xs. \<exists>b. x = Inr b) \<Longrightarrow> all_of xs = Inr (list_all (\<lambda>x. x = Inr True) xs)"
  by (induction xs) (auto simp: andE_def)

lemma comparison_True_iff: "comparison lc fld f d = Inr True \<longleftrightarrow> holds lc fld f d"
  by (auto simp: comparison_def holds_def split: option.splits)

lemma comparison_Inl: "comparison lc fld f d = Inl e \<Longrightarrow> e = TypeError"
  by (auto simp: comparison_def split: option.splits if_splits)

lemma comparison_present:
  "truthy (constraint fld f) \<longrightarrow> attribute fld d \<noteq> None \<Longrightarrow>
   comparison lc fld f d = Inr (holds lc fld f d)"
  by (auto simp: comparison_def holds_def split: option.splits)

lemma comparison_cong:
  "constraint fld f' = constraint fld f \<Longrightarrow> attribute fld d' = attribute fld d \<Longrightarrow>
   comparison lc fld f' d' = comparison lc fld f d"
  by (simp add: comparison_def cong: option.case_cong)

lemma shouldSendTrigger_True_iff:
  "shouldSendTrigger lc f d = Inr True \<longleftrightarrow> (\<forall>fld. holds lc fld f d)"
  by (simp add: shouldSendTrigger_all_of all_of_True_iff set_dimensions comparison_True_iff)

lemma shouldSendTrigger_Inl: "shouldSendTrigger lc f d = Inl e \<Longrightarrow> e = TypeError"
proof -
  assume "shouldSendTrigger lc f d = Inl e"
  then have "Inl e \<in> set (map (\<lambda>fld. comparison lc fld f d) dimensions)"
    unfolding shouldSendTrigger_all_of by (rule all_of_Inl)
  then obtain fld where "comparison lc fld f d = Inl e" by auto
  then show ?thesis by (rule comparison_Inl)
qed

lemma matches_iff: "matches lc f d \<longleftrightarrow> (\<forall>fld. holds lc fld f d)"
  by (simp add: matches_def list_all_iff set_dimensions)

lemma no_filters_constraint: "constraint k no_filters = Absent"
  by (cases k) (simp_all add: no_filters_def)

lemma comparison_False_iff: "comparison lc fld f d = Inr False \<longleftrightarrow> differs lc fld f d"
  by (auto simp: comparison_def differs_def split: option.splits)

lemma all_of_False_iff:
  "all_of (map c xs) = Inr False \<longleftrightarrow>
   (\<exists>k\<in>set xs. c k = Inr False \<and> (\<forall>j\<in>set (takeWhile (\<lambda>j. j \<noteq> k) xs). c j = Inr True))"
proof (induction xs)
  case Nil
  show ?case by simp
next
  case (Cons x xs)
  show ?case
  proof (cases "c x")
    case (Inl e)
    then show ?thesis by (auto simp: andE_def)
  next
    case (Inr b)
    show ?thesis
    proof (cases b)
      case True
      with Inr have t: "c x = Inr True" by simp
      then have l: "all_of (map c (x # xs)) = all_of (map c xs)" by (simp add: andE_def)
      have r: "(k \<in> set (x # xs) \<and> c k = Inr False \<and>
                (\<forall>j\<in>set (takeWhile (\<lambda>j. j \<noteq> k) (x # xs)). c j = Inr True)) \<longleftrightarrow>
               (k \<in> set xs \<and> c k = Inr False \<and>
                (\<forall>j\<in>set (takeWhile (\<lambda>j. j \<noteq> k) xs). c j = Inr True))" for k
      proof (cases "k = x")
        case True
        with t show ?thesis by simp
      next
        case False
        with t show ?thesis by simp
      qed
      have "(\<exists>k\<in>set (x # xs). c k = Inr False \<and>
                (\<forall>j\<in>set (takeWhile (\<lambda>j. j \<noteq> k) (x # xs)). c j = Inr True)) \<longleftrightarrow>
            (\<exists>k\<in>set xs. c k = Inr False \<and>
                (\<forall>j\<in>set (takeWhile (\<lambda>j. j \<noteq> k) xs). c j = Inr True))"
        unfolding Bex_def using r by blast
      with Cons.IH l show ?thesis by simp
    next
      case False
      with Inr have "c x = Inr False" by simp
      then show ?thesis by (auto simp: andE_def)
    qed
  qed
qed

lemma shouldSendTrigger_False_iff:
  "shouldSendTrigger lc f d = Inr False \<longleftrightarrow>
   (\<exists>k. differs lc k f d \<and> (\<forall>j\<in>set (before k). holds lc j f d))"
  by (simp add: shouldSendTrigger_all_of all_of_False_iff set_dimensions before_def
        comparison_False_iff comparison_True_iff)

lemma ex_fields:
  "(\<exists>fld. P fld) \<longleftrightarrow>
   P AppName \<or> P TriggerId \<or> P ConnectionId \<or> P TriggerName \<or> P EntityId \<or> P IntegrationId"
  by (metis field.exhaust)

subsection \<open>Letter case\<close>

lemma lower_lower: "lower_char (lower_char c) = lower_char c"
  by (auto simp: lower_char_def Let_def)

lemma lower_upper: "lower_char (upper_char c) = lower_char c"
  by (auto simp: lower_char_def upper_char_def Let_def)

lemma case_variant_lower: "case_variant s t \<Longrightarrow> lower_case t = lower_case s"
  unfolding case_variant_def lower_case_def
  by (induction s t rule: list_all2_induct) (auto simp: lower_lower lower_upper)

lemma case_variant_empty: "case_variant s t \<Longrightarrow> t = [] \<longleftrightarrow> s = []"
  by (auto simp: case_variant_def)

lemma constraint_set:
  "constraint fld' (set_constraint fld v f) = (if fld' = fld then v else constraint fld' f)"
  by (cases fld; cases fld') simp_all

lemma attribute_set:
  "attribute fld d = Some a \<Longrightarrow>
   attribute fld' (set_attribute fld a' d) = (if fld' = fld then Some a' else attribute fld' d)"
  by (cases fld; cases fld')
     (auto simp: update_metadata_def update_connection_def Option.bind_eq_Some_conv
           split: Option.bind_splits)

lemma ascii_lower_char: "(of_char c :: nat) < 128 \<Longrightarrow> (of_char (lower_char c) :: nat) < 128"
  by (auto simp: lower_char_def Let_def)

lemma ascii_upper_char: "(of_char c :: nat) < 128 \<Longrightarrow> (of_char (upper_char c) :: nat) < 128"
  by (auto simp: upper_char_def Let_def)

lemma case_variant_ascii: "case_variant s t \<Longrightarrow> ascii s \<Longrightarrow> ascii t"
  unfolding case_variant_def ascii_def
  by (induction s t rule: list_all2_induct) (auto simp: ascii_lower_char ascii_upper_char)

lemma case_variant_lc:
  assumes "\<forall>s. ascii s \<longrightarrow> lc s = lower_case s" and "ascii s" and "case_variant s t"
  shows "lc t = lc s"
proof -
  from assms(2,3) have "ascii t" by (simp add: case_variant_ascii)
  with assms(1,2) have "lc t = lower_case t" "lc s = lower_case s" by simp_all
  with assms(3) show ?thesis by (simp add: case_variant_lower)
qed

lemma set_constraint_same_lower:
  assumes "constraint fld f = Str v" and "v' = [] \<longleftrightarrow> v = []" and "lc v' = lc v"
  shows "shouldSendTrigger lc (set_constraint fld (Str v') f) d = shouldSendTrigger lc f d"
proof -
  have "comparison lc k (set_constraint fld (Str v') f) d = comparison lc k f d" for k
  proof (cases "k = fld")
    case True
    with assms show ?thesis
      by (simp add: comparison_def constraint_set cong: option.case_cong)
  next
    case False
    then show ?thesis by (intro comparison_cong) (simp_all add: constraint_set)
  qed
  then show ?thesis by (simp add: shouldSendTrigger_all_of)
qed

lemma set_attribute_same_lower:
  assumes "attribute fld d = Some a" and "lc a' = lc a"
  shows "shouldSendTrigger lc f (set_attribute fld a' d) = shouldSendTrigger lc f d"
proof -
  from assms(1) have s: "attribute k (set_attribute fld a' d) =
                (if k = fld then Some a' else attribute k d)" for k
    by (simp add: attribute_set)
  have "comparison lc k f (set_attribute fld a' d) = comparison lc k f d" for k
  proof (cases "k = fld")
    case True
    with assms show ?thesis
      by (simp add: comparison_def s cong: option.case_cong)
  next
    case False
    then show ?thesis by (intro comparison_cong) (simp_all add: s)
  qed
  then show ?thesis by (simp add: shouldSendTrigger_all_of)
qed

subsection \<open>The claims about the filter evaluator\<close>

text \<open>
  C1, amended. For every filter and every event that has the attribute of each field the
  filter constrains, \<open>shouldSendTrigger\<close> returns the logical AND of six comparisons, one
  per field (\<open>matches\<close>), each comparison being true iff the filter's value for the field
  is falsy (absent, undefined or the empty string) or case-insensitively equal to the
  corresponding event attribute. In particular, if at least one field with a non-empty
  filter value differs from the event's attribute, the result is false.
\<close>

theorem shouldSendTrigger_conjunction:
  assumes "\<forall>fld. truthy (constraint fld f) \<longrightarrow> attribute fld d \<noteq> None"
  shows "shouldSendTrigger lc f d = Inr (matches lc f d) \<and>
         ((\<exists>fld a. truthy (constraint fld f) \<and> attribute fld d = Some a \<and>
                   lc a \<noteq> lc (the (value_of (constraint fld f)))) \<longrightarrow>
          shouldSendTrigger lc f d = Inr False)"
proof -
  have c: "comparison lc fld f d = Inr (holds lc fld f d)" for fld
    using assms by (simp add: comparison_present)
  have "shouldSendTrigger lc f d =
        Inr (list_all (\<lambda>x. x = Inr True) (map (\<lambda>fld. comparison lc fld f d) dimensions))"
    unfolding shouldSendTrigger_all_of by (rule all_of_total) (simp add: c)
  then have r: "shouldSendTrigger lc f d = Inr (matches lc f d)"
    by (simp add: matches_def list_all_iff c)
  have "\<not> matches lc f d"
    if "truthy (constraint fld f)" "attribute fld d = Some a"
       "lc a \<noteq> lc (the (value_of (constraint fld f)))" for fld a
  proof -
    from that have "\<not> holds lc fld f d" by (simp add: holds_def)
    then show ?thesis by (auto simp: matches_iff)
  qed
  with r show ?thesis by auto
qed

text \<open>
  C1 as the spec states it, where a field that is present is a constraint whatever its
  value and a missing attribute does not match (\<open>matches_spec\<close>), fails in two ways. The
  filter \<open>{appName: ""}\<close> has one constrained field, it differs from the attribute
  \<open>"github"\<close> of the event, and the evaluator returns true. The filter
  \<open>{triggerId: "xyz"}\<close> applied to an event without \<open>metadata\<close> returns no boolean at
  all: the evaluator raises a TypeError.
\<close>

theorem shouldSendTrigger_conjunction_counterexample:
  "shouldSendTrigger lower_case (set_constraint AppName (Str '''') no_filters) github_event = Inr True \<and>
   \<not> matches_spec lower_case (set_constraint AppName (Str '''') no_filters) github_event \<and>
   shouldSendTrigger lower_case (set_constraint TriggerId (Str ''xyz'') no_filters)
     \<lparr>data_appName = Some ''github'', data_metadata = None\<rparr> = Inl TypeError \<and>
   \<not> matches_spec lower_case (set_constraint TriggerId (Str ''xyz'') no_filters)
     \<lparr>data_appName = Some ''github'', data_metadata = None\<rparr>"
  by code_simp

text \<open>Scenario B of the spec: the filter \<open>{triggerId: "abc"}\<close> and an event whose
  \<open>metadata.id\<close> is \<open>"xyz"\<close>.\<close>

theorem shouldSendTrigger_conjunction_witness:
  "shouldSendTrigger lower_case (set_constraint TriggerId (Str ''abc'') no_filters) github_event = Inr False"
proof -
  let ?f = "set_constraint TriggerId (Str ''abc'') no_filters"
  have p: "\<forall>fld. truthy (constraint fld ?f) \<longrightarrow> attribute fld github_event \<noteq> None"
    by (simp add: all_fields no_filters_def github_event_def)
  have "lower_case ''xyz'' \<noteq> lower_case ''abc''" by code_simp
  then have "\<exists>fld a. truthy (constraint fld ?f) \<and> attribute fld github_event = Some a \<and>
               lower_case a \<noteq> lower_case (the (value_of (constraint fld ?f)))"
    by (intro exI [of _ TriggerId] exI [of _ "''xyz''"]) (simp add: github_event_def)
  with shouldSendTrigger_conjunction [OF p] show ?thesis by blast
qed

text \<open>
  C2, amended. For every filter that constrains, with a non-empty value, a field whose
  event attribute is missing or lies under a missing attribute (such as \<open>entityId\<close> or
  \<open>integrationId\<close> when \<open>metadata.connection\<close> is absent), the evaluator never returns
  true. It returns false, without raising, exactly when the comparison of some field
  fails on an attribute that is present and every comparison before it in the chain
  holds, so that the chain stops there; otherwise it raises a TypeError.
\<close>

theorem shouldSendTrigger_missing_attribute:
  assumes "truthy (constraint fld f)" and "attribute fld d = None"
  shows "shouldSendTrigger lc f d =
         (if \<exists>k. differs lc k f d \<and> (\<forall>j\<in>set (before k). holds lc j f d)
          then Inr False else Inl TypeError)"
proof (cases "shouldSendTrigger lc f d")
  case (Inl e)
  then have "e = TypeError" by (rule shouldSendTrigger_Inl)
  with Inl show ?thesis
    using shouldSendTrigger_False_iff [of lc f d] by auto
next
  case (Inr b)
  from assms have "\<not> holds lc fld f d" by (simp add: holds_def)
  then have "shouldSendTrigger lc f d \<noteq> Inr True"
    by (auto simp: shouldSendTrigger_True_iff)
  with Inr have "shouldSendTrigger lc f d = Inr False" by auto
  then show ?thesis
    using shouldSendTrigger_False_iff [of lc f d] by simp
qed

text \<open>
  C2 as stated fails: for the filter \<open>{entityId: "default"}\<close> and an event without
  \<open>metadata.connection\<close> the evaluator raises a TypeError instead of returning false.
\<close>

theorem shouldSendTrigger_missing_attribute_counterexample:
  "shouldSendTrigger lower_case (set_constraint EntityId (Str ''default'') no_filters)
     github_event_no_connection = Inl TypeError"
  by code_simp

text \<open>
  On the event without \<open>metadata.connection\<close>, the filter
  \<open>{appName: "slack", entityId: "default"}\<close> gives false, the comparison of \<open>appName\<close>
  failing first, and the filter \<open>{entityId: "default", integrationId: "int-1"}\<close> raises.
\<close>

theorem shouldSendTrigger_missing_attribute_witness:
  "shouldSendTrigger lower_case
     (set_constraint AppName (Str ''slack'') (set_constraint EntityId (Str ''default'') no_filters))
     github_event_no_connection = Inr False \<and>
   shouldSendTrigger lower_case
     (set_constraint IntegrationId (Str ''int-1'')
        (set_constraint EntityId (Str ''default'') no_filters))
     github_event_no_connection = Inl TypeError"
proof -
  let ?f = "set_constraint AppName (Str ''slack'')
              (set_constraint EntityId (Str ''default'') no_filters)"
  let ?g = "set_constraint IntegrationId (Str ''int-1'')
              (set_constraint EntityId (Str ''default'') no_filters)"
  have a: "attribute EntityId github_event_no_connection = None"
    by (simp add: github_event_no_connection_def)
  have tf: "truthy (constraint EntityId ?f)" by simp
  have tg: "truthy (constraint EntityId ?g)" by simp
  have "lower_case ''github'' \<noteq> lower_case ''slack''" by code_simp
  then have "differs lower_case AppName ?f github_event_no_connection"
    by (simp add: differs_def github_event_no_connection_def)
  moreover have "before AppName = []"
    by (simp add: before_def dimensions_def)
  ultimately have y: "\<exists>k. differs lower_case k ?f github_event_no_connection \<and>
      (\<forall>j\<in>set (before k). holds lower_case j ?f github_event_no_connection)"
    by (intro exI [of _ AppName]) simp
  have n: "\<not> (\<exists>k. differs lower_case k ?g github_event_no_connection \<and>
      (\<forall>j\<in>set (before k). holds lower_case j ?g github_event_no_connection))"
    by (simp add: ex_fields differs_def no_filters_def github_event_no_connection_def)
  from shouldSendTrigger_missing_attribute [OF tf a, of lower_case]
       shouldSendTrigger_missing_attribute [OF tg a, of lower_case] y n
  show ?thesis by simp
qed

text \<open>
  C3. For every event, including events missing nested attributes, if the filter has no
  constrained field (the empty filter object \<open>{}\<close> is the case without other keys), the
  evaluator returns true.
\<close>

theorem shouldSendTrigger_no_constraint:
  assumes "\<forall>fld. constraint fld f = Absent"
  shows "shouldSendTrigger lc f d = Inr True"
proof -
  have "holds lc fld f d" for fld
    using assms by (simp add: holds_def)
  then show ?thesis by (simp add: shouldSendTrigger_True_iff)
qed

text \<open>The empty filter object and an event that has no attribute at all.\<close>

theorem shouldSendTrigger_no_constraint_witness:
  "shouldSendTrigger lower_case no_filters \<lparr>data_appName = None, data_metadata = None\<rparr> = Inr True"
  using shouldSendTrigger_no_constraint [of no_filters]
  by (simp add: no_filters_constraint)

text \<open>
  C4, amended. Case-insensitivity: changing the letter case of the value of one
  constrained filter field, or of the corresponding event attribute, does not change
  the result of the evaluator (a raised error included) provided the changed value has
  the same lower-case form under \<open>toLowerCase\<close> as the original, which is so whenever the
  value consists of ASCII characters; and if every constrained field equals the
  corresponding event attribute case-insensitively, the evaluator returns true.
\<close>

theorem shouldSendTrigger_case_insensitive:
  "(constraint fld f = Str v \<and> v \<noteq> [] \<and> v' \<noteq> [] \<and> lc v' = lc v \<longrightarrow>
      shouldSendTrigger lc (set_constraint fld (Str v') f) d = shouldSendTrigger lc f d) \<and>
   (attribute fld d = Some a \<and> lc a' = lc a \<longrightarrow>
      shouldSendTrigger lc f (set_attribute fld a' d) = shouldSendTrigger lc f d) \<and>
   ((\<forall>s. ascii s \<longrightarrow> lc s = lower_case s) \<and>
    constraint fld f = Str v \<and> ascii v \<and> case_variant v v' \<longrightarrow>
      shouldSendTrigger lc (set_constraint fld (Str v') f) d = shouldSendTrigger lc f d) \<and>
   ((\<forall>s. ascii s \<longrightarrow> lc s = lower_case s) \<and>
    attribute fld d = Some a \<and> ascii a \<and> case_variant a a' \<longrightarrow>
      shouldSendTrigger lc f (set_attribute fld a' d) = shouldSendTrigger lc f d) \<and>
   ((\<forall>k. truthy (constraint k f) \<longrightarrow>
          (\<exists>b. attribute k d = Some b \<and> lc b = lc (the (value_of (constraint k f))))) \<longrightarrow>
      shouldSendTrigger lc f d = Inr True)"
proof (intro conjI impI)
  assume "constraint fld f = Str v \<and> v \<noteq> [] \<and> v' \<noteq> [] \<and> lc v' = lc v"
  then show "shouldSendTrigger lc (set_constraint fld (Str v') f) d = shouldSendTrigger lc f d"
    by (intro set_constraint_same_lower [of fld f v]) simp_all
next
  assume "attribute fld d = Some a \<and> lc a' = lc a"
  then show "shouldSendTrigger lc f (set_attribute fld a' d) = shouldSendTrigger lc f d"
    by (intro set_attribute_same_lower [of fld d a]) simp_all
next
  assume h: "(\<forall>s. ascii s \<longrightarrow> lc s = lower_case s) \<and>
    constraint fld f = Str v \<and> ascii v \<and> case_variant v v'"
  then have "lc v' = lc v" by (intro case_variant_lc) simp_all
  moreover from h have "v' = [] \<longleftrightarrow> v = []" by (simp add: case_variant_empty)
  ultimately show
    "shouldSendTrigger lc (set_constraint fld (Str v') f) d = shouldSendTrigger lc f d"
    using h by (intro set_constraint_same_lower [of fld f v]) simp_all
next
  assume h: "(\<forall>s. ascii s \<longrightarrow> lc s = lower_case s) \<and>
    attribute fld d = Some a \<and> ascii a \<and> case_variant a a'"
  then have "lc a' = lc a" by (intro case_variant_lc) simp_all
  with h show "shouldSendTrigger lc f (set_attribute fld a' d) = shouldSendTrigger lc f d"
    by (intro set_attribute_same_lower [of fld d a]) simp_all
next
  assume h: "\<forall>k. truthy (constraint k f) \<longrightarrow>
          (\<exists>b. attribute k d = Some b \<and> lc b = lc (the (value_of (constraint k f))))"
  have "holds lc k f d" for k
    using h by (auto simp: holds_def)
  then show "shouldSendTrigger lc f d = Inr True"
    by (simp add: shouldSendTrigger_True_iff)
qed

text \<open>
  C4 as stated, for every value, fails. Take the dotless i (U+0131) as the value: the
  filter whose \<open>appName\<close> is that letter matches an event whose \<open>appName\<close> is the same
  string; the upper case of the letter is \<open>I\<close>, whose lower case is \<open>i\<close>, so the filter
  \<open>{appName: "I"}\<close>, the same value in upper case, does not match the event.
\<close>

theorem shouldSendTrigger_case_insensitive_counterexample:
  "shouldSendTrigger lower_case (set_constraint AppName (Str dotless_i) no_filters)
     (set_attribute AppName dotless_i github_event) = Inr True \<and>
   upper_case dotless_i = ''I'' \<and>
   shouldSendTrigger lower_case (set_constraint AppName (Str ''I'') no_filters)
     (set_attribute AppName dotless_i github_event) = Inr False"
  by code_simp

text \<open>Scenario A of the spec: the filter \<open>{appName: "GitHub"}\<close> and an event whose
  \<open>appName\<close> is \<open>"github"\<close>; then the filter value in upper case, and the event
  attribute capitalised.\<close>

theorem shouldSendTrigger_case_insensitive_witness:
  "shouldSendTrigger lower_case (set_constraint AppName (Str ''GitHub'') no_filters) github_event
     = Inr True \<and>
   shouldSendTrigger lower_case (set_constraint AppName (Str ''GITHUB'') no_filters) github_event
     = Inr True \<and>
   shouldSendTrigger lower_case (set_constraint AppName (Str ''GitHub'') no_filters)
     (set_attribute AppName ''GitHub'' github_event) = Inr True"
proof -
  let ?f = "set_constraint AppName (Str ''GitHub'') no_filters"
  note T = shouldSendTrigger_case_insensitive
    [of AppName ?f "''GitHub''" "''GITHUB''" lower_case github_event "''github''" "''GitHub''"]
  have c: "constraint AppName ?f = Str ''GitHub''" by simp
  have v: "case_variant ''GitHub'' ''GITHUB''" by code_simp
  have a: "attribute AppName github_event = Some ''github''" by (simp add: github_event_def)
  have w: "case_variant ''github'' ''GitHub''" by code_simp
  have av: "ascii ''GitHub''" by code_simp
  have aa: "ascii ''github''" by code_simp
  have l: "lower_case ''github'' = lower_case ''GitHub''" by code_simp
  have m: "\<forall>k. truthy (constraint k ?f) \<longrightarrow>
          (\<exists>b. attribute k github_event = Some b \<and>
               lower_case b = lower_case (the (value_of (constraint k ?f))))"
    using l by (simp add: all_fields no_filters_def github_event_def)
  have s: "set_constraint AppName (Str ''GITHUB'') ?f =
           set_constraint AppName (Str ''GITHUB'') no_filters"
    by simp
  from T c v a w av aa m s show ?thesis by simp
qed

text \<open>
  C10. For every filter object that has at least one key but whose six constraint
  fields are all falsy (absent, undefined or the empty string), the evaluator returns
  true for every event: an empty string is no constraint at all.
\<close>

theorem shouldSendTrigger_falsy:
  assumes "Object_keys f \<noteq> []" and "\<forall>fld. \<not> truthy (constraint fld f)"
  shows "shouldSendTrigger lc f d = Inr True"
proof -
  have "holds lc fld f d" for fld
    using assms(2) by (simp add: holds_def)
  then show ?thesis by (simp add: shouldSendTrigger_True_iff)
qed

text \<open>The filter \<open>{appName: ""}\<close> and an event whose \<open>appName\<close> is \<open>"github"\<close>.\<close>

theorem shouldSendTrigger_falsy_witness:
  "Object_keys (set_constraint AppName (Str '''') no_filters) = [''appName''] \<and>
   shouldSendTrigger lower_case (set_constraint AppName (Str '''') no_filters) github_event = Inr True"
proof -
  have k: "Object_keys (set_constraint AppName (Str '''') no_filters) = [''appName'']"
    by (simp add: Object_keys_def no_filters_def)
  have t: "\<forall>fld. \<not> truthy (constraint fld (set_constraint AppName (Str '''') no_filters))"
    by (simp add: all_fields no_filters_def)
  from k have "Object_keys (set_constraint AppName (Str '''') no_filters) \<noteq> []" by simp
  from shouldSendTrigger_falsy [OF this t] k show ?thesis by simp
qed

section \<open>Properties of subscriptions\<close>

lemma subscribe_ok:
  assumes "getClientId bc = Inr cid" and "gpc (baseUrl bc) (apiKey bc) = Inr u"
  shows "subscribe lc bc gpc (Some fn) (Some f) w =
         (Inr (), triggerSubscribe cid (listener lc f fn)
            (called LoggerDebug (called (GetPusherClient (baseUrl bc) (apiKey bc))
               (called GetClientId (called (ManualTelemetry ''subscribe'') w)))))"
  using assms by (simp add: subscribe_def Let_def)

lemma registry_called: "registry (called c w) = registry w"
  by (simp add: called_def)

lemma registry_triggerSubscribe:
  "registry (triggerSubscribe cid l w) = (registry w)(cid \<mapsto> l)"
  by (simp add: triggerSubscribe_def)

lemma registry_triggerUnsubscribe:
  "registry (triggerUnsubscribe cid w) = (registry w)(cid := None)"
  by (simp add: triggerUnsubscribe_def)

lemma listener_no_match:
  "shouldSendTrigger lc f ev \<noteq> Inr True \<Longrightarrow> snd (listener lc f fn ev) = []"
  by (auto simp: listener_def split: sum.splits)

lemma listener_match:
  "shouldSendTrigger lc f ev = Inr True \<Longrightarrow> listener lc f fn ev = (fn ev, [ev])"
  by (simp add: listener_def)

text \<open>
  C5, amended. For every subscription and every event that matches its filter, an
  exception raised by the subscriber's callback is neither caught nor logged by the
  listener that \<open>subscribe\<close> registers: the callback is invoked once, and its exception
  leaves the listener towards the code that called it, the event dispatch of the
  transport.
\<close>

theorem listener_propagates:
  assumes "shouldSendTrigger lc filters data = Inr True" and "fn data = Inl e"
  shows "listener lc filters fn data = (Inl e, [data])"
  using assms by (simp add: listener_def)

text \<open>
  C5 as stated fails: with the filter \<open>{appName: "GitHub"}\<close> and a callback that throws,
  the listener applied to a matching event throws the callback's error.
\<close>

theorem listener_propagates_counterexample:
  "listener lower_case (set_constraint AppName (Str ''GitHub'') no_filters)
     (\<lambda>d. Inl (Error ''callback failed'')) github_event =
   (Inl (Error ''callback failed''), [github_event])"
  by code_simp

text \<open>The same with the filter \<open>{triggerName: "github_commit_event"}\<close>.\<close>

theorem listener_propagates_witness:
  "listener lower_case (set_constraint TriggerName (Str ''github_commit_event'') no_filters)
     (\<lambda>d. Inl (Error ''callback failed'')) github_event =
   (Inl (Error ''callback failed''), [github_event])"
proof -
  have "shouldSendTrigger lower_case (set_constraint TriggerName (Str ''github_commit_event'') no_filters)
          github_event = Inr True"
    by code_simp
  then show ?thesis by (rule listener_propagates) simp
qed

text \<open>
  C6. At most one subscription is live per client identity: the registry holds one
  listener per identity, a second \<open>subscribe\<close> for the same identity replaces the
  listener of the first (its callback and its filter), so that an event which does not
  match the new filter invokes no callback, whether or not it matched the old one; and
  after \<open>unsubscribe\<close> no event invokes a callback for that identity.
\<close>

theorem subscribe_last_writer_wins:
  assumes "getClientId bc = Inr cid" and "gpc (baseUrl bc) (apiKey bc) = Inr ()"
  shows "(let w1 = snd (subscribe lc bc gpc (Some fn1) (Some f1) w);
              w2 = snd (subscribe lc bc gpc (Some fn2) (Some f2) w1);
              w3 = snd (unsubscribe bc w2)
          in registry w1 cid = Some (listener lc f1 fn1) \<and>
             registry w2 cid = Some (listener lc f2 fn2) \<and>
             dispatch cid ev w2 = snd (listener lc f2 fn2 ev) \<and>
             (shouldSendTrigger lc f2 ev \<noteq> Inr True \<longrightarrow> dispatch cid ev w2 = []) \<and>
             registry w3 cid = None \<and>
             dispatch cid ev w3 = [])"
  using assms
  by (simp add: subscribe_ok unsubscribe_def Let_def registry_called registry_triggerSubscribe
        registry_triggerUnsubscribe dispatch_def listener_no_match)

text \<open>
  A subscription with the filter \<open>{appName: "github"}\<close>, replaced by one with the filter
  \<open>{appName: "slack"}\<close>, then removed: an event of \<open>github\<close> reaches the callback only
  before the replacement.
\<close>

theorem subscribe_last_writer_wins_witness:
  "(let w1 = snd (subscribe lower_case example_client (\<lambda>url key. Inr ()) (Some (\<lambda>d. Inr ()))
                    (Some (set_constraint AppName (Str ''github'') no_filters)) empty_world);
        w2 = snd (subscribe lower_case example_client (\<lambda>url key. Inr ()) (Some (\<lambda>d. Inr ()))
                    (Some (set_constraint AppName (Str ''slack'') no_filters)) w1);
        w3 = snd (unsubscribe example_client w2)
    in dispatch ''client-1'' github_event w1 = [github_event] \<and>
       dispatch ''client-1'' github_event w2 = [] \<and>
       dispatch ''client-1'' github_event w3 = [])"
proof -
  let ?f1 = "set_constraint AppName (Str ''github'') no_filters"
  let ?f2 = "set_constraint AppName (Str ''slack'') no_filters"
  let ?fn = "\<lambda>d::TriggerData. Inr () :: error + unit"
  let ?gpc = "\<lambda>(url::string) (key::string). Inr () :: error + unit"
  let ?w1 = "snd (subscribe lower_case example_client ?gpc (Some ?fn) (Some ?f1) empty_world)"
  let ?w2 = "snd (subscribe lower_case example_client ?gpc (Some ?fn) (Some ?f2) ?w1)"
  let ?w3 = "snd (unsubscribe example_client ?w2)"
  have n: "shouldSendTrigger lower_case ?f2 github_event \<noteq> Inr True"
    by code_simp
  have y: "shouldSendTrigger lower_case ?f1 github_event = Inr True"
    by code_simp
  have c: "getClientId example_client = Inr ''client-1''"
    by (simp add: example_client_def)
  have g: "?gpc (baseUrl example_client) (apiKey example_client) = Inr ()"
    by simp
  note T = subscribe_last_writer_wins [OF c g, of lower_case ?fn ?f1 empty_world ?fn ?f2 github_event,
      unfolded Let_def]
  from T have r1: "registry ?w1 ''client-1'' = Some (listener lower_case ?f1 ?fn)"
    by (rule conjunct1)
  from T n have d2: "dispatch ''client-1'' github_event ?w2 = []"
    by blast
  from T have d3: "dispatch ''client-1'' github_event ?w3 = []"
    by blast
  have d1: "dispatch ''client-1'' github_event ?w1 = [github_event]"
    unfolding dispatch_def r1 by (simp only: option.case listener_match [OF y] snd_conv)
  from d1 d2 d3 show ?thesis
    unfolding Let_def by (intro conjI)
qed

text \<open>
  C7. For every call of \<open>subscribe\<close> with an absent callback, \<open>subscribe\<close> fails with the
  error \<open>Function is required for trigger subscription\<close> before the client identity is
  resolved and before the transport is touched (the only call made is the telemetry
  one), and the registry of subscriptions is unchanged.
\<close>

theorem subscribe_missing_callback:
  "fst (subscribe lc backendClient getPusherClient None filters w) =
     Inl (Error ''Function is required for trigger subscription'') \<and>
   registry (snd (subscribe lc backendClient getPusherClient None filters w)) = registry w \<and>
   calls (snd (subscribe lc backendClient getPusherClient None filters w)) =
     calls w @ [ManualTelemetry ''subscribe'']"
  by (simp add: subscribe_def called_def Let_def)

text \<open>
  C8. For every call of \<open>subscribe\<close> in which the transport cannot be initialized
  (\<open>getPusherClient\<close> fails with an error \<open>e\<close>), \<open>subscribe\<close> fails, \<open>triggerSubscribe\<close>
  is not called, so that no listener is registered and dispatch is as before; and when
  the callback is present and the client identity resolves, so that the transport is
  reached, the error of \<open>subscribe\<close> is \<open>e\<close> itself.
\<close>

theorem subscribe_transport_unavailable:
  assumes "getPusherClient (baseUrl backendClient) (apiKey backendClient) = Inl e"
  shows "(\<exists>e'. fst (subscribe lc backendClient getPusherClient fn filters w) = Inl e') \<and>
         (\<exists>cs. calls (snd (subscribe lc backendClient getPusherClient fn filters w)) =
                 calls w @ cs \<and> (\<forall>c. TriggerSubscribe c \<notin> set cs)) \<and>
         registry (snd (subscribe lc backendClient getPusherClient fn filters w)) = registry w \<and>
         dispatch c event (snd (subscribe lc backendClient getPusherClient fn filters w)) =
           dispatch c event w \<and>
         ((\<exists>f clientId. fn = Some f \<and> getClientId backendClient = Inr clientId) \<longrightarrow>
            fst (subscribe lc backendClient getPusherClient fn filters w) = Inl e)"
  using assms
  by (auto simp: subscribe_def Let_def called_def dispatch_def split: option.splits sum.splits)

theorem subscribe_transport_unavailable_witness:
  "fst (subscribe lower_case example_client (\<lambda>url key. Inl (Error ''TransportUnavailable''))
          (Some (\<lambda>d. Inr ())) None empty_world) = Inl (Error ''TransportUnavailable'')"
  using subscribe_transport_unavailable
    [of "\<lambda>url key. Inl (Error ''TransportUnavailable'')" example_client
        "Error ''TransportUnavailable''" lower_case "Some (\<lambda>d. Inr ())" None empty_world]
  by (simp add: example_client_def)

section \<open>Properties of enable and disable\<close>

text \<open>
  C9. For every valid trigger-instance identifier (the input parses), \<open>enable\<close> and
  \<open>disable\<close> each issue exactly one status-switch request, for the parsed identifier,
  differing only in the flag sent (true for \<open>enable\<close>, false for \<open>disable\<close>); each
  resolves with true when the remote call succeeds; a remote call that fails surfaces as
  a thrown error (the result of \<open>handleAllError\<close>), and false is never returned.
\<close>

theorem enable_disable:
  assumes "parse data = Inr p"
  shows "calls (snd (enable parse switch handleAllError data w)) =
           calls w @ [ManualTelemetry ''enable'',
                      SwitchTriggerInstanceStatus (triggerInstanceId p) True] \<and>
         calls (snd (disable parse switch handleAllError data w)) =
           calls w @ [ManualTelemetry ''disable'',
                      SwitchTriggerInstanceStatus (triggerInstanceId p) False] \<and>
         (switch (triggerInstanceId p) True = Inr () \<longrightarrow>
            fst (enable parse switch handleAllError data w) = Inr True) \<and>
         (switch (triggerInstanceId p) False = Inr () \<longrightarrow>
            fst (disable parse switch handleAllError data w) = Inr True) \<and>
         (\<forall>e. switch (triggerInstanceId p) True = Inl e \<longrightarrow>
            fst (enable parse switch handleAllError data w) = Inl (handleAllError e)) \<and>
         (\<forall>e. switch (triggerInstanceId p) False = Inl e \<longrightarrow>
            fst (disable parse switch handleAllError data w) = Inl (handleAllError e)) \<and>
         fst (enable parse switch handleAllError data w) \<noteq> Inr False \<and>
         fst (disable parse switch handleAllError data w) \<noteq> Inr False"
  using assms
  by (auto simp: enable_def disable_def Let_def called_def split: sum.splits)

text \<open>A remote end that accepts the request to enable and rejects the request to
  disable.\<close>

theorem enable_disable_witness:
  "fst (enable (\<lambda>s. Inr \<lparr>triggerInstanceId = s\<rparr>)
          (\<lambda>i on. if on then Inr () else Inl (Error ''404''))
          (\<lambda>e. e) ''ti-1'' empty_world) = Inr True \<and>
   fst (disable (\<lambda>s. Inr \<lparr>triggerInstanceId = s\<rparr>)
          (\<lambda>i on. if on then Inr () else Inl (Error ''404''))
          (\<lambda>e. e) ''ti-1'' empty_world) = Inl (Error ''404'') \<and>
   calls (snd (disable (\<lambda>s. Inr \<lparr>triggerInstanceId = s\<rparr>)
          (\<lambda>i on. if on then Inr () else Inl (Error ''404''))
          (\<lambda>e. e) ''ti-1'' empty_world)) =
     [ManualTelemetry ''disable'', SwitchTriggerInstanceStatus ''ti-1'' False]"
  using enable_disable
    [of "\<lambda>s. Inr \<lparr>triggerInstanceId = s\<rparr>" "''ti-1''" "\<lparr>triggerInstanceId = ''ti-1''\<rparr>"
        "\<lambda>i on. if on then Inr () else Inl (Error ''404'')" "\<lambda>e. e" empty_world]
  by (simp add: empty_world_def)

end
